theory Spec2Isabelle
  imports Complex_Main "HOL-Library.Log_Nat"
begin

section \<open>The countdown timer of \<^verbatim>\<open>main.py\<close>\<close>

text \<open>
  The program is one class, \<^verbatim>\<open>CountdownTimer\<close>: three counters
  (\<^verbatim>\<open>_total_seconds\<close>, \<^verbatim>\<open>_remaining\<close>, \<^verbatim>\<open>_running\<close>), three text
  variables behind the spin boxes, a handful of widgets, two button handlers that run on
  the main thread and the method \<^verbatim>\<open>_tick\<close> that runs in a background thread.
  The object is a record, every method is a function from record to record, and the
  interleaving of the main thread with the background threads is a list of events.
\<close>

subsection \<open>Python's \<^verbatim>\<open>int\<close> on a string\<close>

text \<open>
  \<^verbatim>\<open>_parse_time\<close> calls the builtin \<^verbatim>\<open>int\<close> on the text of each spin box. The
  builtin accepts optional white space (space, tab, line feed, vertical tab, form feed,
  carriage return) on both sides of an optional sign followed by decimal digits, which
  single underscores may group; everything else raises \<^verbatim>\<open>ValueError\<close>, and so does
  a literal of more than 4300 digits (the interpreter's default
  \<^verbatim>\<open>sys.int_info.default_max_str_digits\<close>). Strings are lists of 8-bit characters
  here: the decimal digits and spaces that Unicode has beyond ASCII are not modelled.
\<close>

datatype py_error = ValueError

definition is_space :: "char \<Rightarrow> bool" where
  "is_space c \<longleftrightarrow> c \<in> set [CHR '' '', CHR 0x09, CHR 0x0A, CHR 0x0B, CHR 0x0C, CHR 0x0D]"

definition is_digit :: "char \<Rightarrow> bool" where
  "is_digit c \<longleftrightarrow> c \<in> set ''0123456789''"

definition digit_val :: "char \<Rightarrow> int" where
  "digit_val c = int (of_char c) - 48"

definition is_digit_or_underscore :: "char \<Rightarrow> bool" where
  "is_digit_or_underscore c \<longleftrightarrow> is_digit c \<or> c = CHR ''_''"

text \<open>
  \<open>digit_groups prev cs\<close> scans digits and underscores: an underscore must follow a
  digit and be followed by one; \<open>prev\<close> tells whether the previous character was a
  digit.
\<close>

fun digit_groups :: "bool \<Rightarrow> string \<Rightarrow> bool" where
  "digit_groups prev [] = prev"
| "digit_groups prev (c # cs) =
     (if is_digit c then digit_groups True cs else prev \<and> digit_groups False cs)"

definition digits_value :: "string \<Rightarrow> int" where
  "digits_value ds = foldl (\<lambda>a c. 10 * a + digit_val c) 0 ds"

definition max_str_digits :: nat where
  "max_str_digits = 4300"

definition py_int :: "string \<Rightarrow> py_error + int" where
  "py_int x =
     (let t = dropWhile is_space x;
          neg = (t \<noteq> [] \<and> hd t = CHR ''-'');
          u = (if t \<noteq> [] \<and> (hd t = CHR ''-'' \<or> hd t = CHR ''+'') then tl t else t);
          body = takeWhile is_digit_or_underscore u;
          rest = dropWhile is_digit_or_underscore u;
          ds = filter is_digit body
      in if digit_groups False body \<and> list_all is_space rest \<and> length ds \<le> max_str_digits
         then Inr ((if neg then - 1 else 1) * digits_value ds)
         else Inl ValueError)"

text \<open>\<^verbatim>\<open>int(x or 0)\<close>: the empty string is false, and \<^verbatim>\<open>int(0)\<close> is 0.\<close>

definition int_or_0 :: "string \<Rightarrow> py_error + int" where
  "int_or_0 x = (if x = [] then Inr 0 else py_int x)"

subsection \<open>\<^verbatim>\<open>_parse_time\<close> and \<^verbatim>\<open>_fmt\<close>\<close>

text \<open>
  One \<^verbatim>\<open>try\<close> encloses the three conversions, and its handler returns 0: the first
  field that raises decides the result.
\<close>

definition parse_time :: "string \<Rightarrow> string \<Rightarrow> string \<Rightarrow> int" where
  "parse_time h_str m_str s_str =
     (case int_or_0 h_str of
        Inl ValueError \<Rightarrow> 0
      | Inr a \<Rightarrow>
          let h = max 0 (min a 23) in
          (case int_or_0 m_str of
             Inl ValueError \<Rightarrow> 0
           | Inr b \<Rightarrow>
               let m = max 0 (min b 59) in
               (case int_or_0 s_str of
                  Inl ValueError \<Rightarrow> 0
                | Inr c \<Rightarrow>
                    let s = max 0 (min c 59) in h * 3600 + m * 60 + s)))"

definition digit_char :: "nat \<Rightarrow> char" where
  "digit_char d = char_of (48 + d)"

fun dec :: "nat \<Rightarrow> string" where
  "dec n = (if n < 10 then [digit_char n] else dec (n div 10) @ [digit_char (n mod 10)])"

declare dec.simps [simp del]

text \<open>The format \<^verbatim>\<open>02d\<close>: at least two characters, padded with zeros after the sign.\<close>

definition fmt_02d :: "int \<Rightarrow> string" where
  "fmt_02d n =
     (if n < 0 then CHR ''-'' # dec (nat (- n))
      else if n < 10 then CHR ''0'' # dec (nat n)
      else dec (nat n))"

definition fmt :: "int \<Rightarrow> string" where
  "fmt secs =
     (let h = secs div 3600; rem = secs mod 3600;
          m = rem div 60; s = rem mod 60
      in fmt_02d h @ '' : '' @ fmt_02d m @ '' : '' @ fmt_02d s)"

subsection \<open>The progress dots: float arithmetic of \<^verbatim>\<open>_update_dots\<close>\<close>

text \<open>
  \<^verbatim>\<open>round((remaining / total) * len(self._dots))\<close> divides two integers into a double,
  multiplies the double by 10.0 and rounds the product to an integer. A double is
  modelled by the rational it denotes. \<open>fl\<close> rounds a rational to the nearest number
  with a 53-bit significand, ties to the even significand, as the division and the
  multiplication of IEEE 754 do; the range of the exponent is not modelled (the quotient of
  two second counts that the program can hold, at most 86399, is far inside it).
  \<open>round_half_even\<close> is Python's \<^verbatim>\<open>round\<close> with one argument.
\<close>

definition round_half_even :: "rat \<Rightarrow> int" where
  "round_half_even x =
     (let f = \<lfloor>x\<rfloor>; d = x - of_int f
      in if d < 1 / 2 then f
         else if 1 / 2 < d then f + 1
         else if even f then f else f + 1)"

definition pow2 :: "int \<Rightarrow> rat" where
  "pow2 e = (if 0 \<le> e then 2 ^ nat e else 1 / 2 ^ nat (- e))"

text \<open>\<open>binade x\<close> is the exponent \<open>e\<close> with \<open>2\<^sup>e \<le> \<bar>x\<bar> < 2\<^sup>e\<^sup>+\<^sup>1\<close>, for \<open>x \<noteq> 0\<close>.\<close>

definition binade :: "rat \<Rightarrow> int" where
  "binade x =
     (let (p, q) = quotient_of \<bar>x\<bar>; e = bitlen p - bitlen q
      in if pow2 e \<le> \<bar>x\<bar> then e else e - 1)"

definition fl :: "rat \<Rightarrow> rat" where
  "fl x =
     (if x = 0 then 0
      else let u = pow2 (binade x - 52) in of_int (round_half_even (x / u)) * u)"

definition lit_dots :: "int \<Rightarrow> int \<Rightarrow> nat \<Rightarrow> int" where
  "lit_dots rem tot n =
     (if tot = 0 then 0
      else round_half_even (fl (fl (of_int rem / of_int tot) * of_int (int n))))"

subsection \<open>The state of the window\<close>

datatype colour = BG | SURFACE | ACCENT | ACCENT2 | ACCENT3 | TEXT | SUBTEXT

definition DOT_ON :: colour where
  "DOT_ON = ACCENT2"

definition DOT_OFF :: colour where
  "DOT_OFF = SURFACE"

text \<open>
  The texts of the status label and of the start button, named rather than spelled (they
  hold symbols outside ASCII): \<^verbatim>\<open>Set a time and press Start\<close>, \<^verbatim>\<open>Paused\<close>,
  \<^verbatim>\<open>Running...\<close>, \<^verbatim>\<open>Hurry! {remaining}s left\<close>, \<^verbatim>\<open>Timer completed!\<close>, and
  \<^verbatim>\<open>Start\<close>, \<^verbatim>\<open>Resume\<close>, \<^verbatim>\<open>Pause\<close>.
\<close>

datatype status_text =
  Msg_set_a_time | Msg_paused | Msg_running | Msg_hurry int | Msg_completed

datatype button_text = Btn_start | Btn_resume | Btn_pause

text \<open>The two message boxes: \<^verbatim>\<open>showwarning("No time set", ...)\<close> and \<^verbatim>\<open>showinfo("Done", ...)\<close>.\<close>

datatype dialog = Warning_no_time_set | Info_done

text \<open>What \<^verbatim>\<open>self.after(0, ...)\<close> queues for the main thread.\<close>

datatype callback = Refresh_ui int | On_finished

text \<open>
  Where a thread running \<^verbatim>\<open>_tick\<close> stands: created and not yet at the \<^verbatim>\<open>while\<close>,
  inside \<^verbatim>\<open>time.sleep(1)\<close>, or returned.
\<close>

datatype pc = Starting | Asleep | Exited

record timer =
  total_seconds :: int
  remaining :: int
  running :: bool
  threads :: "pc list"
  var_h :: string
  var_m :: string
  var_s :: string
  lbl_display_text :: string
  lbl_display_fg :: colour
  lbl_status_text :: status_text
  lbl_status_fg :: colour
  btn_start_text :: button_text
  btn_start_bg :: colour
  dots :: "colour list"
  after_queue :: "callback list"
  dialogs :: "dialog list"

subsection \<open>Display helpers\<close>

definition update_dots :: "int \<Rightarrow> int \<Rightarrow> timer \<Rightarrow> timer" where
  "update_dots rem tot t =
     (let lit = lit_dots rem tot (length (dots t))
      in t\<lparr>dots := map (\<lambda>i. if int i < lit then DOT_ON else DOT_OFF) [0..<length (dots t)]\<rparr>)"

definition reset_display :: "timer \<Rightarrow> timer" where
  "reset_display t =
     update_dots 0 0
       (t\<lparr>lbl_display_text := ''00 : 00 : 00'', lbl_display_fg := TEXT,
          lbl_status_text := Msg_set_a_time, lbl_status_fg := SUBTEXT,
          btn_start_text := Btn_start, btn_start_bg := ACCENT\<rparr>)"

definition refresh_ui :: "int \<Rightarrow> timer \<Rightarrow> timer" where
  "refresh_ui rem t =
     (let t1 = update_dots rem (total_seconds t) (t\<lparr>lbl_display_text := fmt rem\<rparr>)
      in if rem \<le> 10
         then t1\<lparr>lbl_display_fg := ACCENT3,
                 lbl_status_text := Msg_hurry rem, lbl_status_fg := ACCENT3\<rparr>
         else t1)"

definition on_finished :: "timer \<Rightarrow> timer" where
  "on_finished t =
     (let t1 = update_dots 0 0
                 (t\<lparr>lbl_display_text := ''00 : 00 : 00'', lbl_display_fg := ACCENT2,
                    lbl_status_text := Msg_completed, lbl_status_fg := ACCENT2,
                    btn_start_text := Btn_start, btn_start_bg := ACCENT\<rparr>)
      in t1\<lparr>dialogs := dialogs t1 @ [Info_done]\<rparr>)"

text \<open>The window as \<^verbatim>\<open>__init__\<close> leaves it.\<close>

definition init :: timer where
  "init =
     reset_display
       \<lparr>total_seconds = 0, remaining = 0, running = False, threads = [],
        var_h = ''00'', var_m = ''00'', var_s = ''00'',
        lbl_display_text = ''00 : 00 : 00'', lbl_display_fg = TEXT,
        lbl_status_text = Msg_set_a_time, lbl_status_fg = SUBTEXT,
        btn_start_text = Btn_start, btn_start_bg = ACCENT,
        dots = replicate 10 DOT_OFF, after_queue = [], dialogs = []\<rparr>"

subsection \<open>The button handlers\<close>

text \<open>
  The last seven lines of \<^verbatim>\<open>_on_start_pause\<close>, shared by a fresh start and a resume:
  they set the flag and start a new thread on \<^verbatim>\<open>_tick\<close>. The threads started before
  are not joined and not told to stop; the list keeps them.
\<close>

definition start_or_resume :: "timer \<Rightarrow> timer" where
  "start_or_resume t =
     t\<lparr>running := True,
       btn_start_text := Btn_pause, btn_start_bg := ACCENT2,
       lbl_status_text := Msg_running, lbl_status_fg := ACCENT2,
       lbl_display_fg := TEXT,
       threads := threads t @ [Starting]\<rparr>"

definition on_start_pause :: "timer \<Rightarrow> timer" where
  "on_start_pause t =
     (if running t then
        t\<lparr>running := False,
          btn_start_text := Btn_resume, btn_start_bg := ACCENT,
          lbl_status_text := Msg_paused, lbl_status_fg := ACCENT\<rparr>
      else if remaining t = 0 then
        (let tot = parse_time (var_h t) (var_m t) (var_s t)
         in if tot = 0 then t\<lparr>dialogs := dialogs t @ [Warning_no_time_set]\<rparr>
            else start_or_resume (t\<lparr>total_seconds := tot, remaining := tot\<rparr>))
      else start_or_resume t)"

definition on_reset :: "timer \<Rightarrow> timer" where
  "on_reset t =
     reset_display
       (t\<lparr>running := False, remaining := 0, total_seconds := 0,
          var_h := ''00'', var_m := ''00'', var_s := ''00''\<rparr>)"

subsection \<open>The background thread\<close>

text \<open>
  \<^verbatim>\<open>_tick\<close> in three pieces. \<open>tick_wake\<close> is what follows the sleep: the flag is
  tested again and only then the counter is decremented. \<open>tick_loop\<close> is the test of the
  \<^verbatim>\<open>while\<close>: either the refresh is queued and the thread sleeps, or the loop is left
  and \<open>tick_exit\<close>, the \<^verbatim>\<open>if\<close> after the loop, runs.
\<close>

definition tick_wake :: "timer \<Rightarrow> timer" where
  "tick_wake t = (if running t then t\<lparr>remaining := remaining t - 1\<rparr> else t)"

definition tick_exit :: "timer \<Rightarrow> timer" where
  "tick_exit t =
     (if running t then t\<lparr>running := False, after_queue := after_queue t @ [On_finished]\<rparr>
      else t)"

definition tick_loop :: "nat \<Rightarrow> timer \<Rightarrow> timer" where
  "tick_loop i t =
     (if running t \<and> 0 < remaining t then
        t\<lparr>after_queue := after_queue t @ [Refresh_ui (remaining t)],
          threads := (threads t)[i := Asleep]\<rparr>
      else (tick_exit t)\<lparr>threads := (threads t)[i := Exited]\<rparr>)"

text \<open>
  One step of thread \<open>i\<close>: from where it stands to its next sleep or to its end. The sleep
  is the only place where the thread waits, and the only place where the model lets the
  main thread or another thread run in between; the statements between two sleeps are one
  step.
\<close>

definition thread_step :: "nat \<Rightarrow> timer \<Rightarrow> timer" where
  "thread_step i t =
     (if i < length (threads t) then
        (case threads t ! i of
           Starting \<Rightarrow> tick_loop i t
         | Asleep \<Rightarrow> tick_loop i (tick_wake t)
         | Exited \<Rightarrow> t)
      else t)"

subsection \<open>Events\<close>

text \<open>
  The main loop of the toolkit runs the next queued callback; the user types into the spin
  boxes or presses a button; a thread takes a step.
\<close>

definition run_after :: "timer \<Rightarrow> timer" where
  "run_after t =
     (case after_queue t of
        [] \<Rightarrow> t
      | Refresh_ui rem # q \<Rightarrow> refresh_ui rem (t\<lparr>after_queue := q\<rparr>)
      | On_finished # q \<Rightarrow> on_finished (t\<lparr>after_queue := q\<rparr>))"

definition set_inputs :: "string \<Rightarrow> string \<Rightarrow> string \<Rightarrow> timer \<Rightarrow> timer" where
  "set_inputs h m s t = t\<lparr>var_h := h, var_m := m, var_s := s\<rparr>"

datatype event =
  Type_inputs string string string
| Click_start_pause
| Click_reset
| Thread_step nat
| Run_after

fun step :: "event \<Rightarrow> timer \<Rightarrow> timer" where
  "step (Type_inputs h m s) t = set_inputs h m s t"
| "step Click_start_pause t = on_start_pause t"
| "step Click_reset t = on_reset t"
| "step (Thread_step i) t = thread_step i t"
| "step Run_after t = run_after t"

definition run :: "event list \<Rightarrow> timer \<Rightarrow> timer" where
  "run es t = foldl (\<lambda>t e. step e t) t es"



subsection \<open>The four statuses of the specification\<close>

text \<open>
  The code has no status field. The specification's status is read off the counters: a
  timer that is not running is paused while seconds remain; with none remaining it is
  idle when no duration is set (as at creation and after a reset) and finished when the
  duration of the completed countdown is still there.
\<close>

datatype status = Idle | Running | Paused | Finished

definition status_of :: "timer \<Rightarrow> status" where
  "status_of t =
     (if running t then Running
      else if remaining t \<noteq> 0 then Paused
      else if total_seconds t = 0 then Idle
      else Finished)"

text \<open>The completion signals given so far: alerts shown and alerts queued.\<close>

definition completions :: "timer \<Rightarrow> nat" where
  "completions t = count_list (dialogs t) Info_done + count_list (after_queue t) On_finished"

subsection \<open>The invariant of the counters\<close>


subsection \<open>A countdown of five seconds\<close>

text \<open>
  00, 00, 05 in the spin boxes and a press of Start; \<open>five_seconds_asleep\<close> is the
  window once the new thread has reached its first sleep.
\<close>

definition five_seconds_started :: timer where
  "five_seconds_started = run [Type_inputs ''00'' ''00'' ''05'', Click_start_pause] init"

definition five_seconds_asleep :: timer where
  "five_seconds_asleep = thread_step 0 five_seconds_started"

text \<open>
  The same countdown paused after two ticks, and the same countdown one tick before its end.
\<close>

definition five_seconds_paused :: timer where
  "five_seconds_paused = on_start_pause ((thread_step 0 ^^ 2) five_seconds_asleep)"

definition five_seconds_last :: timer where
  "five_seconds_last = (thread_step 0 ^^ 4) five_seconds_asleep"

subsection \<open>\<^verbatim>\<open>configure\<close> as the specification words it\<close>

text \<open>
  The specification clamps every field on its own and counts a field that is empty or not
  numeric as 0, for that field alone. \<open>spec_configure\<close> is that reading, to be compared
  with \<open>parse_time\<close>.
\<close>

definition field_or_0 :: "string \<Rightarrow> int" where
  "field_or_0 x = (case int_or_0 x of Inl ValueError \<Rightarrow> 0 | Inr v \<Rightarrow> v)"

definition spec_configure :: "string \<Rightarrow> string \<Rightarrow> string \<Rightarrow> int" where
  "spec_configure h_str m_str s_str =
     (let h = max 0 (min (field_or_0 h_str) 23);
          m = max 0 (min (field_or_0 m_str) 59);
          s = max 0 (min (field_or_0 s_str) 59)
      in h * 3600 + m * 60 + s)"

subsection \<open>The dots that are lit\<close>

definition lit_count :: "timer \<Rightarrow> nat" where
  "lit_count t = length (filter (\<lambda>c. c = DOT_ON) (dots t))"

section \<open>What each method leaves alone\<close>

lemma update_dots_fields [simp]:
  "total_seconds (update_dots a b t) = total_seconds t"
  "remaining (update_dots a b t) = remaining t"
  "running (update_dots a b t) = running t"
  "threads (update_dots a b t) = threads t"
  "var_h (update_dots a b t) = var_h t"
  "var_m (update_dots a b t) = var_m t"
  "var_s (update_dots a b t) = var_s t"
  "after_queue (update_dots a b t) = after_queue t"
  "dialogs (update_dots a b t) = dialogs t"
  by (simp_all add: update_dots_def)

lemma refresh_ui_fields [simp]:
  "total_seconds (refresh_ui r t) = total_seconds t"
  "remaining (refresh_ui r t) = remaining t"
  "running (refresh_ui r t) = running t"
  "threads (refresh_ui r t) = threads t"
  "var_h (refresh_ui r t) = var_h t"
  "var_m (refresh_ui r t) = var_m t"
  "var_s (refresh_ui r t) = var_s t"
  "after_queue (refresh_ui r t) = after_queue t"
  "dialogs (refresh_ui r t) = dialogs t"
  by (simp_all add: refresh_ui_def Let_def)

lemma on_finished_fields [simp]:
  "total_seconds (on_finished t) = total_seconds t"
  "remaining (on_finished t) = remaining t"
  "running (on_finished t) = running t"
  "threads (on_finished t) = threads t"
  "var_h (on_finished t) = var_h t"
  "var_m (on_finished t) = var_m t"
  "var_s (on_finished t) = var_s t"
  "after_queue (on_finished t) = after_queue t"
  "dialogs (on_finished t) = dialogs t @ [Info_done]"
  by (simp_all add: on_finished_def Let_def)

lemma on_reset_fields [simp]:
  "total_seconds (on_reset t) = 0"
  "remaining (on_reset t) = 0"
  "running (on_reset t) = False"
  "threads (on_reset t) = threads t"
  "var_h (on_reset t) = ''00''"
  "var_m (on_reset t) = ''00''"
  "var_s (on_reset t) = ''00''"
  "after_queue (on_reset t) = after_queue t"
  "dialogs (on_reset t) = dialogs t"
  by (simp_all add: on_reset_def reset_display_def)

lemma run_after_fields [simp]:
  "total_seconds (run_after t) = total_seconds t"
  "remaining (run_after t) = remaining t"
  "running (run_after t) = running t"
  "threads (run_after t) = threads t"
  "var_h (run_after t) = var_h t"
  "var_m (run_after t) = var_m t"
  "var_s (run_after t) = var_s t"
  by (simp_all add: run_after_def split: list.split callback.split)

lemma completions_run_after [simp]: "completions (run_after t) = completions t"
  by (simp add: run_after_def completions_def split: list.split callback.split)

lemma set_inputs_fields [simp]:
  "total_seconds (set_inputs h m s t) = total_seconds t"
  "remaining (set_inputs h m s t) = remaining t"
  "running (set_inputs h m s t) = running t"
  "threads (set_inputs h m s t) = threads t"
  "var_h (set_inputs h m s t) = h"
  "var_m (set_inputs h m s t) = m"
  "var_s (set_inputs h m s t) = s"
  "after_queue (set_inputs h m s t) = after_queue t"
  "dialogs (set_inputs h m s t) = dialogs t"
  by (simp_all add: set_inputs_def)

lemma completions_set_inputs [simp]: "completions (set_inputs h m s t) = completions t"
  by (simp add: completions_def)


section \<open>Time passing while the timer is not running\<close>


lemma run_Nil [simp]: "run [] t = t"
  by (simp add: run_def)

lemma run_Cons [simp]: "run (e # es) t = run es (step e t)"
  by (simp add: run_def)

lemma run_append: "run (es @ fs) t = run fs (run es t)"
  by (simp add: run_def)


section \<open>Starting with no time set\<close>

lemma init_fields [simp]:
  "total_seconds init = 0"
  "remaining init = 0"
  "running init = False"
  "threads init = []"
  "var_h init = ''00''"
  "var_m init = ''00''"
  "var_s init = ''00''"
  "after_queue init = []"
  "dialogs init = []"
  by (simp_all add: init_def reset_display_def)

text \<open>
  Claim C6. A press of Start on a timer that is not running and has no seconds remaining,
  when the three spin boxes parse to a total of 0, shows the warning "No time set" and
  changes nothing else: \<^verbatim>\<open>_total_seconds\<close>, \<^verbatim>\<open>_remaining\<close> and the running flag
  (hence the status) are as before, and no thread is started.
\<close>

theorem start_with_no_time_set:
  assumes "\<not> running t" and "remaining t = 0"
    and "parse_time (var_h t) (var_m t) (var_s t) = 0"
  shows "on_start_pause t = t\<lparr>dialogs := dialogs t @ [Warning_no_time_set]\<rparr>
       \<and> total_seconds (on_start_pause t) = total_seconds t
       \<and> remaining (on_start_pause t) = remaining t
       \<and> running (on_start_pause t) = running t
       \<and> status_of (on_start_pause t) = status_of t
       \<and> threads (on_start_pause t) = threads t"
  using assms by (simp add: on_start_pause_def status_of_def)

text \<open>The window as created, its spin boxes at 00, 00, 00.\<close>

theorem start_with_no_time_set_witness:
  "\<not> running init \<and> remaining init = 0
   \<and> parse_time (var_h init) (var_m init) (var_s init) = 0
   \<and> on_start_pause init = init\<lparr>dialogs := dialogs init @ [Warning_no_time_set]\<rparr>
   \<and> status_of (on_start_pause init) = status_of init"
proof -
  have a: "\<not> running init" and b: "remaining init = 0" by simp_all
  have c: "parse_time (var_h init) (var_m init) (var_s init) = 0" by code_simp
  from start_with_no_time_set [OF a b c] a b c show ?thesis by blast
qed

section \<open>The counters in every reachable state\<close>

lemma clamp_range:
  fixes a k :: int
  assumes "0 \<le> k"
  shows "0 \<le> max 0 (min a k)" and "max 0 (min a k) \<le> k"
  using assms by simp_all

lemma clamped_total_range:
  fixes a b c :: int
  shows "0 \<le> max 0 (min a 23) * 3600 + max 0 (min b 59) * 60 + max 0 (min c 59)"
    and "max 0 (min a 23) * 3600 + max 0 (min b 59) * 60 + max 0 (min c 59) \<le> 86399"
proof -
  have "0 \<le> max 0 (min a 23)" "max 0 (min a 23) \<le> 23"
    "0 \<le> max 0 (min b 59)" "max 0 (min b 59) \<le> 59"
    "0 \<le> max 0 (min c 59)" "max 0 (min c 59) \<le> 59"
    by (simp_all add: clamp_range)
  then show "0 \<le> max 0 (min a 23) * 3600 + max 0 (min b 59) * 60 + max 0 (min c 59)"
    and "max 0 (min a 23) * 3600 + max 0 (min b 59) * 60 + max 0 (min c 59) \<le> 86399"
    by linarith+
qed

lemma parse_time_range: "0 \<le> parse_time h m s \<and> parse_time h m s \<le> 86399"
  using clamped_total_range
  by (simp add: parse_time_def Let_def split: sum.split py_error.split)

lemma start_or_resume_fields [simp]:
  "total_seconds (start_or_resume t) = total_seconds t"
  "remaining (start_or_resume t) = remaining t"
  "running (start_or_resume t) = True"
  "threads (start_or_resume t) = threads t @ [Starting]"
  "var_h (start_or_resume t) = var_h t"
  "var_m (start_or_resume t) = var_m t"
  "var_s (start_or_resume t) = var_s t"
  "after_queue (start_or_resume t) = after_queue t"
  "dialogs (start_or_resume t) = dialogs t"
  by (simp_all add: start_or_resume_def)

text \<open>What a step of a sleeping thread does while the timer is running.\<close>

lemma thread_step_asleep_running:
  assumes "running t" and "i < length (threads t)" and "threads t ! i = Asleep"
  shows "remaining (thread_step i t) = remaining t - 1"
    and "total_seconds (thread_step i t) = total_seconds t"
    and "length (threads (thread_step i t)) = length (threads t)"
    and "1 < remaining t \<Longrightarrow> running (thread_step i t) \<and> threads (thread_step i t) ! i = Asleep"
    and "remaining t \<le> 1 \<Longrightarrow> \<not> running (thread_step i t) \<and> threads (thread_step i t) ! i = Exited
           \<and> after_queue (thread_step i t) = after_queue t @ [On_finished]
           \<and> dialogs (thread_step i t) = dialogs t"
  using assms
  by (simp_all add: thread_step_def tick_loop_def tick_wake_def tick_exit_def)







section \<open>Ticks\<close>

lemma five_seconds_asleep_fields [simp]:
  "running five_seconds_asleep"
  "remaining five_seconds_asleep = 5"
  "total_seconds five_seconds_asleep = 5"
  "threads five_seconds_asleep = [Asleep]"
  "dialogs five_seconds_asleep = []"
  "after_queue five_seconds_asleep = [Refresh_ui 5]"
  by code_simp+





section \<open>Pause\<close>





section \<open>Reset\<close>



section \<open>Resume\<close>

lemma on_start_pause_resume:
  assumes "\<not> running t" and "remaining t \<noteq> 0"
  shows "on_start_pause t = start_or_resume t"
  using assms by (simp add: on_start_pause_def)

lemma on_start_pause_fresh:
  assumes "\<not> running t" and "remaining t = 0"
    and "parse_time (var_h t) (var_m t) (var_s t) \<noteq> 0"
  shows "on_start_pause t =
    start_or_resume (t\<lparr>total_seconds := parse_time (var_h t) (var_m t) (var_s t),
                       remaining := parse_time (var_h t) (var_m t) (var_s t)\<rparr>)"
  using assms by (simp add: on_start_pause_def Let_def)

lemma start_or_resume_set_inputs:
  "start_or_resume (set_inputs h m s t) = set_inputs h m s (start_or_resume t)"
  by (simp add: start_or_resume_def set_inputs_def)

text \<open>The first two steps of a thread started on a running timer with seconds remaining.\<close>

lemma new_thread_first_steps:
  assumes "running t" and "0 < remaining t" and "j < length (threads t)"
    and "threads t ! j = Starting"
  shows "remaining (thread_step j t) = remaining t"
    and "running (thread_step j t)"
    and "threads (thread_step j t) ! j = Asleep"
    and "remaining (thread_step j (thread_step j t)) = remaining t - 1"
proof -
  from assms show a: "remaining (thread_step j t) = remaining t"
    and b: "running (thread_step j t)" and c: "threads (thread_step j t) ! j = Asleep"
    by (simp_all add: thread_step_def tick_loop_def)
  from assms have "j < length (threads (thread_step j t))"
    by (simp add: thread_step_def tick_loop_def)
  from thread_step_asleep_running(1) [OF b this c] a
  show "remaining (thread_step j (thread_step j t)) = remaining t - 1" by simp
qed

text \<open>
  Claim C4. A press of the button on a timer that is not running and has \<open>r > 0\<close> seconds
  remaining raises the flag, keeps \<^verbatim>\<open>_remaining\<close> at \<open>r\<close> and \<^verbatim>\<open>_total_seconds\<close> as
  it was, and starts a new thread; that thread's first tick gives \<open>r - 1\<close>. The spin boxes
  are not read: whatever they hold, the press does the same.
\<close>

theorem resume_continues_from_remaining:
  assumes "\<not> running t" and "0 < remaining t"
  shows "running (on_start_pause t) \<and> status_of (on_start_pause t) = Running
       \<and> remaining (on_start_pause t) = remaining t
       \<and> total_seconds (on_start_pause t) = total_seconds t
       \<and> threads (on_start_pause t) = threads t @ [Starting]
       \<and> remaining (thread_step (length (threads t))
            (thread_step (length (threads t)) (on_start_pause t))) = remaining t - 1
       \<and> (\<forall>h m s. on_start_pause (set_inputs h m s t) = set_inputs h m s (on_start_pause t))"
proof -
  from assms have r: "on_start_pause t = start_or_resume t"
    by (simp add: on_start_pause_resume)
  have "\<forall>h m s. on_start_pause (set_inputs h m s t) = set_inputs h m s (on_start_pause t)"
    using assms by (simp add: on_start_pause_resume start_or_resume_set_inputs)
  moreover have "remaining (thread_step (length (threads t))
            (thread_step (length (threads t)) (on_start_pause t))) = remaining t - 1"
    using new_thread_first_steps(4) [of "start_or_resume t" "length (threads t)"] assms r
    by simp
  ultimately show ?thesis using r by (simp add: status_of_def)
qed

text \<open>The countdown of five seconds, paused after two ticks and resumed.\<close>

theorem resume_continues_from_remaining_witness:
  "\<not> running (on_start_pause ((thread_step 0 ^^ 2) five_seconds_asleep))
   \<and> 0 < remaining (on_start_pause ((thread_step 0 ^^ 2) five_seconds_asleep))
   \<and> remaining (on_start_pause ((thread_step 0 ^^ 2) five_seconds_asleep)) = 3
   \<and> total_seconds (on_start_pause ((thread_step 0 ^^ 2) five_seconds_asleep)) = 5
   \<and> remaining (on_start_pause (on_start_pause ((thread_step 0 ^^ 2) five_seconds_asleep))) = 3
   \<and> remaining (thread_step 1 (thread_step 1
        (on_start_pause (on_start_pause ((thread_step 0 ^^ 2) five_seconds_asleep))))) = 2"
proof -
  let ?p = "on_start_pause ((thread_step 0 ^^ 2) five_seconds_asleep)"
  have a: "\<not> running ?p" and b: "0 < remaining ?p" and c: "remaining ?p = 3"
    and d: "total_seconds ?p = 5" and e: "length (threads ?p) = 1"
    by code_simp+
  from resume_continues_from_remaining [OF a b] a b c d e show ?thesis by simp
qed

section \<open>Configure, then start\<close>

lemma parse_time_numeric:
  assumes "int_or_0 hs = Inr h" and "int_or_0 ms = Inr m" and "int_or_0 ss = Inr s"
  shows "parse_time hs ms ss = max 0 (min h 23) * 3600 + max 0 (min m 59) * 60 + max 0 (min s 59)"
  using assms by (simp add: parse_time_def)

text \<open>
  Claim C7. Let the three spin boxes hold texts that \<^verbatim>\<open>int\<close> reads as \<open>h\<close>, \<open>m\<close> and \<open>s\<close>
  (an empty box counting as 0), with \<open>h\<close> from 0 to 23, \<open>m\<close> and \<open>s\<close> from 0 to 59 and not all
  three 0. A press of Start on a timer that is not running and has nothing remaining sets
  both \<^verbatim>\<open>_remaining\<close> and \<^verbatim>\<open>_total_seconds\<close> to \<open>3600 h + 60 m + s\<close> and the timer
  runs.
\<close>

theorem configure_then_start:
  assumes "\<not> running t" and "remaining t = 0"
    and "int_or_0 hs = Inr h" and "int_or_0 ms = Inr m" and "int_or_0 ss = Inr s"
    and "0 \<le> h" and "h \<le> 23" and "0 \<le> m" and "m \<le> 59" and "0 \<le> s" and "s \<le> 59"
    and "0 < h * 3600 + m * 60 + s"
  shows "remaining (on_start_pause (set_inputs hs ms ss t)) = h * 3600 + m * 60 + s
       \<and> total_seconds (on_start_pause (set_inputs hs ms ss t)) = h * 3600 + m * 60 + s
       \<and> running (on_start_pause (set_inputs hs ms ss t))
       \<and> status_of (on_start_pause (set_inputs hs ms ss t)) = Running"
proof -
  let ?c = "set_inputs hs ms ss t"
  from assms have p: "parse_time (var_h ?c) (var_m ?c) (var_s ?c) = h * 3600 + m * 60 + s"
    by (simp add: parse_time_numeric)
  with assms(12) have nz: "parse_time (var_h ?c) (var_m ?c) (var_s ?c) \<noteq> 0" by simp
  have "\<not> running ?c" "remaining ?c = 0" using assms(1,2) by simp_all
  from on_start_pause_fresh [OF this nz] p show ?thesis
    by (simp add: status_of_def)
qed

text \<open>One hour, two minutes and five seconds on the window as created.\<close>

theorem configure_then_start_witness:
  "\<not> running init \<and> remaining init = 0
   \<and> int_or_0 ''01'' = Inr 1 \<and> int_or_0 ''02'' = Inr 2 \<and> int_or_0 ''05'' = Inr 5
   \<and> (0::int) < 1 * 3600 + 2 * 60 + 5
   \<and> remaining (on_start_pause (set_inputs ''01'' ''02'' ''05'' init)) = 3725
   \<and> total_seconds (on_start_pause (set_inputs ''01'' ''02'' ''05'' init)) = 3725
   \<and> running (on_start_pause (set_inputs ''01'' ''02'' ''05'' init))"
proof -
  have a: "\<not> running init" and b: "remaining init = 0" by simp_all
  have h: "int_or_0 ''01'' = Inr 1" and m: "int_or_0 ''02'' = Inr 2"
    and s: "int_or_0 ''05'' = Inr 5" by code_simp+
  have pos: "(0::int) < 1 * 3600 + 2 * 60 + 5" by simp
  from configure_then_start [OF a b h m s _ _ _ _ _ _ pos] a b h m s pos
  show ?thesis by simp
qed

section \<open>Fresh start or resume\<close>

text \<open>
  Claim C10. On a timer that is not running, the button tells a fresh start from a resume
  by \<^verbatim>\<open>_remaining\<close> alone. With \<^verbatim>\<open>_remaining\<close> at 0 it reads the spin boxes and, when
  they give a total other than 0, starts a countdown of that total; this is so after a
  countdown has run out as well (the tick that ends a countdown leaves the timer not
  running with \<^verbatim>\<open>_remaining\<close> at 0), with no reset in between. With \<^verbatim>\<open>_remaining\<close> other
  than 0 it resumes with the counters as they are, whatever the spin boxes hold.
\<close>

theorem fresh_start_or_resume:
  assumes "\<not> running t"
  shows "(remaining t = 0 \<longrightarrow> parse_time (var_h t) (var_m t) (var_s t) \<noteq> 0 \<longrightarrow>
            running (on_start_pause t)
          \<and> remaining (on_start_pause t) = parse_time (var_h t) (var_m t) (var_s t)
          \<and> total_seconds (on_start_pause t) = parse_time (var_h t) (var_m t) (var_s t))
       \<and> (remaining t \<noteq> 0 \<longrightarrow>
            running (on_start_pause t)
          \<and> remaining (on_start_pause t) = remaining t
          \<and> total_seconds (on_start_pause t) = total_seconds t
          \<and> (\<forall>h m s. on_start_pause (set_inputs h m s t) = set_inputs h m s (on_start_pause t)))
       \<and> (\<forall>(u::timer) i h m s. running u \<and> remaining u = 1 \<and> i < length (threads u)
            \<and> threads u ! i = Asleep \<and> parse_time h m s \<noteq> 0 \<longrightarrow>
            \<not> running (thread_step i u) \<and> remaining (thread_step i u) = 0
          \<and> running (on_start_pause (set_inputs h m s (thread_step i u)))
          \<and> remaining (on_start_pause (set_inputs h m s (thread_step i u))) = parse_time h m s
          \<and> total_seconds (on_start_pause (set_inputs h m s (thread_step i u))) = parse_time h m s)"
proof (intro conjI allI impI)
  assume z: "remaining t = 0" and nz: "parse_time (var_h t) (var_m t) (var_s t) \<noteq> 0"
  note f = on_start_pause_fresh [OF assms z nz]
  from f show "running (on_start_pause t)" by simp
  from f show "remaining (on_start_pause t) = parse_time (var_h t) (var_m t) (var_s t)" by simp
  from f show "total_seconds (on_start_pause t) = parse_time (var_h t) (var_m t) (var_s t)"
    by simp
next
  assume r: "remaining t \<noteq> 0"
  note f = on_start_pause_resume [OF assms r]
  from f show "running (on_start_pause t)" by simp
  from f show "remaining (on_start_pause t) = remaining t" by simp
  from f show "total_seconds (on_start_pause t) = total_seconds t" by simp
  fix h m s
  show "on_start_pause (set_inputs h m s t) = set_inputs h m s (on_start_pause t)"
    using assms r by (simp add: on_start_pause_resume start_or_resume_set_inputs)
next
  fix u :: timer and i h m s
  assume u: "running u \<and> remaining u = 1 \<and> i < length (threads u)
            \<and> threads u ! i = Asleep \<and> parse_time h m s \<noteq> 0"
  then have run: "running u" and len: "i < length (threads u)" and sl: "threads u ! i = Asleep"
    and one: "remaining u = 1" and nz: "parse_time h m s \<noteq> 0" by simp_all
  let ?f = "thread_step i u"
  from thread_step_asleep_running(1,5) [OF run len sl] one
  show nr: "\<not> running ?f" and z: "remaining ?f = 0" by simp_all
  let ?c = "set_inputs h m s ?f"
  have "\<not> running ?c" "remaining ?c = 0" "parse_time (var_h ?c) (var_m ?c) (var_s ?c) \<noteq> 0"
    using nr z nz by simp_all
  note f = on_start_pause_fresh [OF this]
  from f show "running (on_start_pause ?c)" by simp
  from f show "remaining (on_start_pause ?c) = parse_time h m s" by simp
  from f show "total_seconds (on_start_pause ?c) = parse_time h m s" by simp
qed

text \<open>
  A first start on the window as created, a resume of the paused countdown with other
  numbers typed into the spin boxes, and a start right after the last tick.
\<close>

theorem fresh_start_or_resume_witness:
  "\<not> running (set_inputs ''00'' ''00'' ''07'' init)
   \<and> remaining (set_inputs ''00'' ''00'' ''07'' init) = 0
   \<and> parse_time ''00'' ''00'' ''07'' \<noteq> 0
   \<and> remaining (on_start_pause (set_inputs ''00'' ''00'' ''07'' init)) = 7
   \<and> \<not> running five_seconds_paused \<and> remaining five_seconds_paused \<noteq> 0
   \<and> remaining (on_start_pause (set_inputs ''00'' ''00'' ''07'' five_seconds_paused)) = 3
   \<and> total_seconds (on_start_pause (set_inputs ''00'' ''00'' ''07'' five_seconds_paused)) = 5
   \<and> running five_seconds_last \<and> remaining five_seconds_last = 1
   \<and> 0 < length (threads five_seconds_last) \<and> threads five_seconds_last ! 0 = Asleep
   \<and> remaining (thread_step 0 five_seconds_last) = 0
   \<and> remaining (on_start_pause (set_inputs ''00'' ''00'' ''07''
        (thread_step 0 five_seconds_last))) = 7"
proof -
  let ?c = "set_inputs ''00'' ''00'' ''07'' init"
  have p: "parse_time ''00'' ''00'' ''07'' = 7" by code_simp
  have a: "\<not> running ?c" and b: "remaining ?c = 0"
    and c: "parse_time (var_h ?c) (var_m ?c) (var_s ?c) \<noteq> 0"
    using p by simp_all
  have d: "\<not> running five_seconds_paused" and e: "remaining five_seconds_paused = 3"
    and f: "total_seconds five_seconds_paused = 5"
    by code_simp+
  have g: "running five_seconds_last" and h: "remaining five_seconds_last = 1"
    and i: "0 < length (threads five_seconds_last)"
    and j: "threads five_seconds_last ! 0 = Asleep"
    by code_simp+
  from fresh_start_or_resume [OF a] b c p
  have 1: "remaining (on_start_pause ?c) = 7" by simp
  from fresh_start_or_resume [OF d] e f
  have 2: "remaining (on_start_pause (set_inputs ''00'' ''00'' ''07'' five_seconds_paused)) = 3"
    "total_seconds (on_start_pause (set_inputs ''00'' ''00'' ''07'' five_seconds_paused)) = 5"
    by simp_all
  from fresh_start_or_resume [OF d, THEN conjunct2, THEN conjunct2, rule_format,
      of five_seconds_last 0 "''00''" "''00''" "''07''"] g h i j p
  have 3: "remaining (thread_step 0 five_seconds_last) = 0"
    "remaining (on_start_pause (set_inputs ''00'' ''00'' ''07''
        (thread_step 0 five_seconds_last))) = 7"
    by simp_all
  from 1 2 3 a b p d e g h i j show ?thesis by simp
qed

section \<open>The end of a countdown\<close>




section \<open>Parsing the spin boxes\<close>

text \<open>
  Claim C5, as stated: every field is parsed and clamped on its own, a field that is not
  numeric counting as 0 for that field alone, so that hours \<^verbatim>\<open>abc\<close> with minutes \<^verbatim>\<open>5\<close>
  give 300. The code gives 0 there: the handler of the one \<^verbatim>\<open>try\<close> returns 0 for the
  whole triple.
\<close>

theorem parse_time_per_field_counterexample:
  "parse_time ''abc'' ''5'' ''0'' = 0 \<and> spec_configure ''abc'' ''5'' ''0'' = 300
   \<and> parse_time ''abc'' ''5'' ''0'' \<noteq> spec_configure ''abc'' ''5'' ''0''"
  by code_simp

text \<open>
  Claim C5, amended. An empty field counts as 0. When \<^verbatim>\<open>int\<close> accepts every field that
  is not empty, each value is clamped on its own, hours to 0..23, minutes and seconds to
  0..59, and the result is \<open>3600 h + 60 m + s\<close> of the clamped values, which is what the
  specification's reading gives. When \<^verbatim>\<open>int\<close> rejects one of the fields, the result is
  0 whatever the other two hold. In every case the result lies between 0 and 86399.
\<close>

theorem parse_time_all_fields_or_nothing:
  "int_or_0 [] = Inr 0
   \<and> (\<forall>a b c. int_or_0 hs = Inr a \<and> int_or_0 ms = Inr b \<and> int_or_0 ss = Inr c \<longrightarrow>
         parse_time hs ms ss
           = max 0 (min a 23) * 3600 + max 0 (min b 59) * 60 + max 0 (min c 59)
       \<and> parse_time hs ms ss = spec_configure hs ms ss)
   \<and> (int_or_0 hs = Inl ValueError \<or> int_or_0 ms = Inl ValueError
        \<or> int_or_0 ss = Inl ValueError \<longrightarrow> parse_time hs ms ss = 0)
   \<and> 0 \<le> parse_time hs ms ss \<and> parse_time hs ms ss \<le> 86399"
proof (intro conjI allI impI)
  show "int_or_0 [] = Inr 0" by (simp add: int_or_0_def)
next
  fix a b c
  assume "int_or_0 hs = Inr a \<and> int_or_0 ms = Inr b \<and> int_or_0 ss = Inr c"
  then have f: "int_or_0 hs = Inr a" "int_or_0 ms = Inr b" "int_or_0 ss = Inr c" by simp_all
  from parse_time_numeric [OF f]
  show "parse_time hs ms ss
      = max 0 (min a 23) * 3600 + max 0 (min b 59) * 60 + max 0 (min c 59)" .
  with f show "parse_time hs ms ss = spec_configure hs ms ss"
    by (simp add: spec_configure_def field_or_0_def)
next
  assume "int_or_0 hs = Inl ValueError \<or> int_or_0 ms = Inl ValueError
        \<or> int_or_0 ss = Inl ValueError"
  then show "parse_time hs ms ss = 0"
    by (auto simp add: parse_time_def split: sum.split py_error.split)
next
  show "0 \<le> parse_time hs ms ss" and "parse_time hs ms ss \<le> 86399"
    using parse_time_range [of hs ms ss] by simp_all
qed

text \<open>
  Hours left empty, minutes 5 and seconds 75, clamped to 59; and minutes that are not a
  number.
\<close>

theorem parse_time_all_fields_or_nothing_witness:
  "int_or_0 '''' = Inr 0 \<and> int_or_0 ''5'' = Inr 5 \<and> int_or_0 ''75'' = Inr 75
   \<and> parse_time '''' ''5'' ''75'' = 359
   \<and> int_or_0 ''5 min'' = Inl ValueError
   \<and> parse_time ''1'' ''5 min'' ''30'' = 0"
proof -
  have a: "int_or_0 '''' = Inr 0" and b: "int_or_0 ''5'' = Inr 5"
    and c: "int_or_0 ''75'' = Inr 75" and d: "int_or_0 ''5 min'' = Inl ValueError"
    by code_simp+
  from parse_time_all_fields_or_nothing [of "''''" "''5''" "''75''"] a b c
  have 1: "parse_time '''' ''5'' ''75'' = 359" by simp
  from parse_time_all_fields_or_nothing [of "''1''" "''5 min''" "''30''"] d
  have 2: "parse_time ''1'' ''5 min'' ''30'' = 0" by simp
  from 1 2 a b c d show ?thesis by simp
qed

section \<open>The double arithmetic of the dots\<close>

text \<open>
  Rounding to a double changes a number by at most one part in \<open>2\<^sup>5\<^sup>3\<close>. The quotient
  \<open>10 r / t\<close> of two integers is either a tie, exactly halfway between two integers, or
  at least \<open>1 / (2 t)\<close> away from every tie: far more than the two roundings can move
  it. At a tie with \<open>0 < r \<le> t\<close> the quotient \<open>r / t\<close> is one of 1/20, 3/20, ..., 19/20,
  and the product computed in doubles is the tie itself.
\<close>

lemma pow2_pos: "0 < pow2 e"
  by (simp add: pow2_def)

lemma pow2_power_int: "pow2 e = 2 powi e"
  by (simp add: pow2_def power_int_def inverse_eq_divide power_one_over)

lemma pow2_add: "pow2 (a + b) = pow2 a * pow2 b"
  by (simp add: pow2_power_int power_int_add)

lemma pow2_of_nat: "pow2 (int n) = 2 ^ n"
  by (simp add: pow2_def)

lemma pow2_diff: "pow2 (a - b) = pow2 a / pow2 b"
  by (simp add: pow2_power_int power_int_diff)

lemma round_half_even_error: "\<bar>of_int (round_half_even x) - x\<bar> \<le> 1 / 2"
proof -
  have "of_int \<lfloor>x\<rfloor> \<le> x" "x < of_int \<lfloor>x\<rfloor> + 1" by linarith+
  then show ?thesis
    by (auto simp add: round_half_even_def Let_def)
qed

lemma round_half_even_unique:
  assumes "of_int k - 1 / 2 < x" and "x < of_int k + 1 / 2"
  shows "round_half_even x = k"
proof -
  have f: "of_int \<lfloor>x\<rfloor> \<le> x" "x < of_int \<lfloor>x\<rfloor> + 1" by linarith+
  consider "\<lfloor>x\<rfloor> = k" | "\<lfloor>x\<rfloor> = k - 1"
  proof -
    from f assms have "of_int \<lfloor>x\<rfloor> < (of_int k :: rat) + 1 / 2" by linarith
    then have "(of_int \<lfloor>x\<rfloor> :: rat) < of_int (k + 1)" by simp
    then have 1: "\<lfloor>x\<rfloor> < k + 1" by (simp only: of_int_less_iff)
    from f assms have "(of_int k :: rat) - 3 / 2 < of_int \<lfloor>x\<rfloor>" by linarith
    then have "(of_int (k - 2) :: rat) < of_int \<lfloor>x\<rfloor>" by simp
    then have 2: "k - 2 < \<lfloor>x\<rfloor>" by (simp only: of_int_less_iff)
    from 1 2 have "\<lfloor>x\<rfloor> = k \<or> \<lfloor>x\<rfloor> = k - 1" by linarith
    then show ?thesis using that by blast
  qed
  then show ?thesis
  proof cases
    case 1
    with assms show ?thesis by (simp add: round_half_even_def Let_def)
  next
    case 2
    with assms show ?thesis by (auto simp add: round_half_even_def Let_def)
  qed
qed

lemma binade_lower:
  assumes "x \<noteq> 0"
  shows "pow2 (binade x) \<le> \<bar>x\<bar>"
proof -
  obtain p q where pq: "quotient_of \<bar>x\<bar> = (p, q)" by (cases "quotient_of \<bar>x\<bar>")
  then have q: "0 < q" and x: "\<bar>x\<bar> = of_int p / of_int q"
    by (simp_all add: quotient_of_denom_pos quotient_of_div)
  from assms have "0 < \<bar>x\<bar>" by simp
  with x q have "0 < (of_int p :: rat)" by (simp add: zero_less_divide_iff)
  then have p: "0 < p" by simp
  let ?e = "bitlen p - bitlen q"
  show ?thesis
  proof (cases "pow2 ?e \<le> \<bar>x\<bar>")
    case True
    with pq show ?thesis by (simp add: binade_def)
  next
    case False
    with pq have b: "binade x = ?e - 1" by (simp add: binade_def)
    from bitlen_bounds [OF p] have "2 ^ nat (bitlen p - 1) \<le> p" by simp
    then have "(of_int (2 ^ nat (bitlen p - 1)) :: rat) \<le> of_int p"
      by (simp only: of_int_le_iff)
    then have lp: "pow2 (bitlen p - 1) \<le> of_int p"
      using bitlen_nonneg [of p] p by (simp add: pow2_def bitlen_eq_zero_iff)
    from bitlen_bounds [OF q] have "q < 2 ^ nat (bitlen q)" by simp
    then have "(of_int q :: rat) < of_int (2 ^ nat (bitlen q))"
      by (simp only: of_int_less_iff)
    then have uq: "of_int q < pow2 (bitlen q)"
      using bitlen_nonneg [of q] by (simp add: pow2_def)
    have "pow2 (?e - 1) = pow2 (bitlen p - 1) / pow2 (bitlen q)"
      by (simp add: pow2_diff [symmetric] algebra_simps)
    also have "\<dots> \<le> of_int p / pow2 (bitlen q)"
      using lp pow2_pos [of "bitlen q"] by (simp add: divide_right_mono)
    also have "\<dots> \<le> of_int p / of_int q"
      using uq q p by (simp add: frac_le)
    finally show ?thesis using b x by simp
  qed
qed

lemma fl_error: "\<bar>fl x - x\<bar> \<le> \<bar>x\<bar> / 2 ^ 53"
proof (cases "x = 0")
  case True
  then show ?thesis by (simp add: fl_def)
next
  case False
  define u where "u = pow2 (binade x - 52)"
  have u: "0 < u" by (simp add: u_def pow2_pos)
  have "u = pow2 (binade x) / pow2 52" by (simp add: u_def pow2_diff)
  also have "pow2 52 = 2 ^ 52" using pow2_of_nat [of 52] by simp
  finally have "u = pow2 (binade x) / 2 ^ 52" .
  with binade_lower [OF False] have ub: "u \<le> \<bar>x\<bar> / 2 ^ 52"
    by (simp add: divide_right_mono)
  have fx: "fl x = of_int (round_half_even (x / u)) * u"
    using False by (simp add: fl_def u_def Let_def)
  have "fl x - x = (of_int (round_half_even (x / u)) - x / u) * u"
    using u by (simp add: fx algebra_simps)
  then have "\<bar>fl x - x\<bar> = \<bar>of_int (round_half_even (x / u)) - x / u\<bar> * u"
    using u by (simp add: abs_mult)
  also have "\<dots> \<le> (1 / 2) * u"
    using round_half_even_error [of "x / u"] u by (intro mult_right_mono) simp_all
  also have "\<dots> \<le> (1 / 2) * (\<bar>x\<bar> / 2 ^ 52)"
    using ub by simp
  also have "\<dots> = \<bar>x\<bar> / 2 ^ 53" by simp
  finally show ?thesis .
qed

lemma fl_times_ten_error: "\<bar>fl (fl x * 10) - 10 * x\<bar> \<le> 30 * \<bar>x\<bar> / 2 ^ 53"
proof -
  define a where "a = fl x"
  have 1: "\<bar>a - x\<bar> \<le> \<bar>x\<bar> / 2 ^ 53" unfolding a_def by (rule fl_error)
  have "\<bar>x\<bar> / 2 ^ 53 \<le> \<bar>x\<bar>" by (simp add: divide_le_eq)
  with 1 have "\<bar>a\<bar> \<le> 2 * \<bar>x\<bar>" by linarith
  then have 2: "\<bar>a * 10\<bar> \<le> 20 * \<bar>x\<bar>" by (simp add: abs_mult)
  have "\<bar>fl (a * 10) - a * 10\<bar> \<le> \<bar>a * 10\<bar> / 2 ^ 53" by (rule fl_error)
  also have "\<dots> \<le> 20 * \<bar>x\<bar> / 2 ^ 53" using 2 by (simp add: divide_right_mono)
  finally have 3: "\<bar>fl (a * 10) - a * 10\<bar> \<le> 20 * \<bar>x\<bar> / 2 ^ 53" .
  have "\<bar>a * 10 - 10 * x\<bar> = 10 * \<bar>a - x\<bar>" by (simp add: abs_if)
  with 1 have 4: "\<bar>a * 10 - 10 * x\<bar> \<le> 10 * \<bar>x\<bar> / 2 ^ 53" by simp
  from 3 4 have "\<bar>fl (a * 10) - 10 * x\<bar> \<le> 20 * \<bar>x\<bar> / 2 ^ 53 + 10 * \<bar>x\<bar> / 2 ^ 53"
    by linarith
  then show ?thesis by (simp add: a_def)
qed

lemma nearest_gap:
  fixes a t k :: int
  assumes t: "0 < t" and k: "k = round_half_even (of_int a / of_int t)"
    and nt: "2 * \<bar>a - k * t\<bar> \<noteq> t"
  shows "\<bar>(of_int a / of_int t :: rat) - of_int k\<bar> \<le> 1 / 2 - 1 / (2 * of_int t)"
proof -
  define n where "n = a - k * t"
  have eq: "(of_int a / of_int t :: rat) - of_int k = of_int n / of_int t"
    using t by (simp add: n_def field_simps)
  from round_half_even_error [of "of_int a / of_int t"] k eq
  have "\<bar>(of_int n / of_int t :: rat)\<bar> \<le> 1 / 2"
    by (simp add: abs_minus_commute)
  then have "(of_int \<bar>n\<bar> :: rat) / of_int t \<le> 1 / 2" using t by simp
  then have "(of_int (2 * \<bar>n\<bar>) :: rat) \<le> of_int t" using t by (simp add: field_simps)
  then have "2 * \<bar>n\<bar> \<le> t" by (simp only: of_int_le_iff)
  with nt have "2 * \<bar>n\<bar> \<le> t - 1" by (simp add: n_def)
  then have "(of_int (2 * \<bar>n\<bar>) :: rat) \<le> of_int (t - 1)" by (simp only: of_int_le_iff)
  then have "(of_int \<bar>n\<bar> :: rat) / of_int t \<le> 1 / 2 - 1 / (2 * of_int t)"
    using t by (simp add: field_simps)
  then show ?thesis using eq t by simp
qed

lemma tie_values:
  "list_all (\<lambda>j. round_half_even (fl (fl (of_int j / 20) * 10)) = round_half_even (of_int j / 2))
     [1, 3, 5, 7, 9, 11, 13, 15, 17, 19 :: int]"
  by code_simp

lemma lit_dots_no_tie:
  fixes r t :: int
  assumes "0 \<le> r" and "r \<le> t" and "0 < t" and "t \<le> 2 ^ 46"
    and k: "k = round_half_even (of_int (10 * r) / of_int t)"
    and nt: "2 * \<bar>10 * r - k * t\<bar> \<noteq> t"
  shows "lit_dots r t 10 = k"
proof -
  define x :: rat where "x = of_int r / of_int t"
  define z where "z = fl (fl x * 10)"
  have x: "0 \<le> x" "x \<le> 1" using assms(1-3) by (simp_all add: x_def)
  have w: "(of_int (10 * r) / of_int t :: rat) = 10 * x" by (simp add: x_def)
  from fl_times_ten_error [of x] x have "\<bar>z - 10 * x\<bar> \<le> 30 * x / 2 ^ 53"
    by (simp add: z_def)
  also have "\<dots> \<le> 30 / 2 ^ 53" using x by (simp add: divide_right_mono)
  finally have e: "\<bar>z - 10 * x\<bar> \<le> 30 / 2 ^ 53" .
  from nearest_gap [OF assms(3) k nt] w
  have g: "\<bar>10 * x - of_int k\<bar> \<le> 1 / 2 - 1 / (2 * of_int t)" by simp
  from assms(4) have "(of_int t :: rat) \<le> of_int (2 ^ 46)" by (simp only: of_int_le_iff)
  then have "(of_int t :: rat) \<le> 2 ^ 46" by simp
  then have "2 * (of_int t :: rat) \<le> 2 ^ 47" by simp
  then have "1 / (2 ^ 47 :: rat) \<le> 1 / (2 * of_int t)"
    using assms(3) by (intro divide_left_mono) simp_all
  moreover have "(30 :: rat) / 2 ^ 53 < 1 / 2 ^ 47" by simp
  ultimately have "(30 :: rat) / 2 ^ 53 < 1 / (2 * of_int t)" by linarith
  with e g have "\<bar>z - of_int k\<bar> < 1 / 2" by linarith
  then have "of_int k - 1 / 2 < z" "z < of_int k + 1 / 2" by linarith+
  then have "round_half_even z = k" by (rule round_half_even_unique)
  then show ?thesis using assms(3) by (simp add: lit_dots_def z_def x_def)
qed

lemma lit_dots_tie:
  fixes r t j :: int
  assumes "0 < t" and "20 * r = j * t" and "odd j" and "0 \<le> r" and "r \<le> t"
  shows "lit_dots r t 10 = round_half_even (of_int (10 * r) / of_int t)"
proof -
  have jt: "j * t = 20 * r" using assms(2) by simp
  with assms(4) have "0 \<le> j * t" by linarith
  with assms(1) have j0: "0 \<le> j" by (simp add: zero_le_mult_iff)
  from jt assms(5) have "j * t \<le> 20 * t" by linarith
  with assms(1) have j20: "j \<le> 20" by (simp only: mult_le_cancel_right)
  note j0 j20
  with assms(3) have j: "j \<in> set [1, 3, 5, 7, 9, 11, 13, 15, 17, 19]"
    by (simp; presburger)
  have "(of_int (20 * r) :: rat) = of_int (j * t)" using assms(2) by (simp only:)
  then have x: "(of_int r / of_int t :: rat) = of_int j / 20"
    using assms(1) by (simp add: field_simps)
  have "(of_int (10 * r) / of_int t :: rat) = 10 * (of_int r / of_int t)" by simp
  also have "\<dots> = 10 * (of_int j / 20)" by (simp only: x)
  finally have w: "(of_int (10 * r) / of_int t :: rat) = of_int j / 2" by simp
  from tie_values j
  have tv: "round_half_even (fl (fl (of_int j / 20) * 10)) = round_half_even (of_int j / 2)"
    unfolding list_all_iff by blast
  have "lit_dots r t 10 = round_half_even (fl (fl (of_int r / of_int t) * 10))"
    using assms(1) by (simp add: lit_dots_def)
  also have "\<dots> = round_half_even (fl (fl (of_int j / 20) * 10))" by (simp only: x)
  also have "\<dots> = round_half_even (of_int j / 2)" by (rule tv)
  also have "\<dots> = round_half_even (of_int (10 * r) / of_int t)" by (simp only: w)
  finally show ?thesis .
qed

lemma lit_dots_exact:
  fixes r t :: int
  assumes "0 \<le> r" and "r \<le> t" and "0 < t" and "t \<le> 2 ^ 46"
  shows "lit_dots r t 10 = round_half_even (of_int (10 * r) / of_int t)"
proof -
  define k where "k = round_half_even (of_int (10 * r) / of_int t)"
  show ?thesis
  proof (cases "2 * \<bar>10 * r - k * t\<bar> = t")
    case False
    from lit_dots_no_tie [OF assms k_def False] show ?thesis by (simp add: k_def)
  next
    case True
    then have "20 * r = (2 * k + 1) * t \<or> 20 * r = (2 * k - 1) * t"
      by (auto simp add: abs_if algebra_simps split: if_splits)
    then show ?thesis
    proof
      assume "20 * r = (2 * k + 1) * t"
      from lit_dots_tie [OF assms(3) this _ assms(1,2)] show ?thesis by simp
    next
      assume "20 * r = (2 * k - 1) * t"
      from lit_dots_tie [OF assms(3) this _ assms(1,2)] show ?thesis by simp
    qed
  qed
qed

section \<open>The progress dots\<close>

lemma count_below:
  "length (filter (\<lambda>i. int i < l) [0..<n]) = nat (min (max 0 l) (int n))"
  by (induction n) auto

lemma lit_count_update_dots:
  "lit_count (update_dots r t s)
     = nat (min (max 0 (lit_dots r t (length (dots s)))) (int (length (dots s))))"
proof -
  define l where "l = lit_dots r t (length (dots s))"
  have "filter (\<lambda>c. c = DOT_ON) (map (\<lambda>i. if int i < l then DOT_ON else DOT_OFF) [0..<n])
      = map (\<lambda>i. DOT_ON) (filter (\<lambda>i. int i < l) [0..<n])" for n
    by (induction n) (simp_all add: DOT_ON_def DOT_OFF_def)
  then show ?thesis
    by (simp add: lit_count_def update_dots_def Let_def l_def [symmetric] count_below)
qed

lemma round_half_even_range:
  assumes "0 \<le> x" and "x \<le> of_int n"
  shows "0 \<le> round_half_even x" and "round_half_even x \<le> n"
proof -
  note e = round_half_even_error [of x]
  from e assms have "(of_int (round_half_even x) :: rat) > - 1" by linarith
  then have "(of_int (- 1) :: rat) < of_int (round_half_even x)" by simp
  then have "- 1 < round_half_even x" by (simp only: of_int_less_iff)
  then show "0 \<le> round_half_even x" by simp
  from e assms have "(of_int (round_half_even x) :: rat) < of_int n + 1" by linarith
  then have "(of_int (round_half_even x) :: rat) < of_int (n + 1)" by simp
  then have "round_half_even x < n + 1" by (simp only: of_int_less_iff)
  then show "round_half_even x \<le> n" by simp
qed

text \<open>
  Claim C9, as stated: with 30 seconds remaining of 120, three of the ten dots are lit,
  under a tie-break that the implementation documents. The code lights two: \<^verbatim>\<open>30 / 120\<close>
  is the double 0.25, ten times that is the double 2.5, and Python's \<^verbatim>\<open>round\<close> takes
  a tie to the even integer. The code documents no tie-break.
\<close>

theorem dots_30_of_120_counterexample:
  "lit_dots 30 120 10 = 2 \<and> lit_dots 30 120 10 \<noteq> 3
   \<and> lit_count (update_dots 30 120 init) = 2"
  by code_simp

text \<open>
  Claim C9, amended. No dot is lit when the total is 0. When
  \<open>0 \<le> remaining \<le> total\<close> and \<open>0 < total \<le> 2\<^sup>4\<^sup>6\<close>, the number of lit dots out of ten
  is \<^verbatim>\<open>round((remaining / total) * 10)\<close> computed in doubles, and that is the integer
  nearest to the exact quotient \<open>10 remaining / total\<close>, the even one of the two when the
  quotient lies halfway between them. With 30 remaining of 120 the result is 2.
\<close>

theorem lit_dots_rounds_half_to_even:
  "lit_dots r 0 n = 0
   \<and> (0 \<le> r \<and> r \<le> t \<and> 0 < t \<and> t \<le> 2 ^ 46 \<longrightarrow>
         lit_dots r t 10 = round_half_even (of_int (10 * r) / of_int t)
       \<and> \<bar>of_int (lit_dots r t 10) - (of_int (10 * r) / of_int t :: rat)\<bar> \<le> 1 / 2
       \<and> (length (dots s) = 10 \<longrightarrow> lit_count (update_dots r t s) = nat (lit_dots r t 10)))
   \<and> (\<forall>k. round_half_even (of_int k + 1 / 2) = (if even k then k else k + 1))
   \<and> lit_dots 30 120 10 = 2"
proof (intro conjI impI allI)
  show "lit_dots r 0 n = 0" by (simp add: lit_dots_def)
next
  assume a: "0 \<le> r \<and> r \<le> t \<and> 0 < t \<and> t \<le> 2 ^ 46"
  then have b: "0 \<le> r" "r \<le> t" "0 < t" "t \<le> 2 ^ 46" by simp_all
  from lit_dots_exact [OF b]
  show e: "lit_dots r t 10 = round_half_even (of_int (10 * r) / of_int t)" .
  from round_half_even_error [of "of_int (10 * r) / of_int t"] e
  show "\<bar>of_int (lit_dots r t 10) - (of_int (10 * r) / of_int t :: rat)\<bar> \<le> 1 / 2"
    by simp
  assume len: "length (dots s) = 10"
  have "(0 :: rat) \<le> of_int (10 * r) / of_int t" using b by simp
  moreover have "(of_int (10 * r) / of_int t :: rat) \<le> of_int 10"
    using b by (simp add: divide_le_eq)
  ultimately have "0 \<le> lit_dots r t 10" "lit_dots r t 10 \<le> 10"
    unfolding e by (rule round_half_even_range)+
  then show "lit_count (update_dots r t s) = nat (lit_dots r t 10)"
    using len by (simp add: lit_count_update_dots)
next
  fix k :: int
  have "\<lfloor>(of_int k :: rat) + 1 / 2\<rfloor> = k" by linarith
  then show "round_half_even (of_int k + 1 / 2) = (if even k then k else k + 1)"
    by (simp add: round_half_even_def Let_def)
next
  show "lit_dots 30 120 10 = 2" by code_simp
qed

text \<open>Thirty seconds of 120, a tie, and 40 seconds of 60.\<close>

theorem lit_dots_rounds_half_to_even_witness:
  "(0::int) \<le> 30 \<and> (30::int) \<le> 120 \<and> (0::int) < 120 \<and> (120::int) \<le> 2 ^ 46
   \<and> length (dots init) = 10
   \<and> (of_int (10 * 30) / of_int 120 :: rat) = 5 / 2
   \<and> lit_dots 30 120 10 = round_half_even (5 / 2)
   \<and> lit_count (update_dots 30 120 init) = 2
   \<and> lit_dots 40 60 10 = round_half_even (20 / 3)
   \<and> lit_count (update_dots 40 60 init) = 7"
proof -
  have a: "(0::int) \<le> 30 \<and> (30::int) \<le> 120 \<and> (0::int) < 120 \<and> (120::int) \<le> 2 ^ 46"
    by simp
  have b: "(0::int) \<le> 40 \<and> (40::int) \<le> 60 \<and> (0::int) < 60 \<and> (60::int) \<le> 2 ^ 46"
    by simp
  have len: "length (dots init) = 10" by (simp add: init_def reset_display_def update_dots_def)
  have q: "(of_int (10 * 30) / of_int 120 :: rat) = 5 / 2"
    "(of_int (10 * 40) / of_int 60 :: rat) = 20 / 3" by simp_all
  have v: "round_half_even (5 / 2) = 2" "round_half_even (20 / 3) = 7" by code_simp+
  from lit_dots_rounds_half_to_even [of 30 n 120 init] a len q(1) v(1)
  have 1: "lit_dots 30 120 10 = round_half_even (5 / 2)"
    "lit_count (update_dots 30 120 init) = 2" by simp_all
  from lit_dots_rounds_half_to_even [of 40 n 60 init] b len q(2) v(2)
  have 2: "lit_dots 40 60 10 = round_half_even (20 / 3)"
    "lit_count (update_dots 40 60 init) = 7" by simp_all
  from 1 2 a len q show ?thesis by simp
qed

end
